theory Spec2Isabelle
  imports Main "HOL-Library.Sublist" "HOL-Library.Multiset"
begin

section \<open>Text and characters\<close>

text \<open>
  A Python \<open>str\<close> is a sequence of code points. The texts of this development are
  sequences of code points below 256 (Latin-1, which holds the German letters of the
  catalogue), one \<open>char\<close> per code point; \<open>cp c\<close> is the code point of \<open>c\<close>
  (Python's \<open>ord\<close>). The tables below are those of Python's \<open>re\<close> module for
  \<open>str\<close> patterns on this range.
\<close>

definition cp :: "char \<Rightarrow> nat" where
  "cp c = of_char c"

text \<open>Lower-casing as \<open>re.IGNORECASE\<close> does it: A-Z and the Latin-1 capitals move by 32.\<close>

definition lower :: "nat \<Rightarrow> nat" where
  "lower n =
     (if (65 \<le> n \<and> n \<le> 90) \<or> (192 \<le> n \<and> n \<le> 214) \<or> (216 \<le> n \<and> n \<le> 222)
      then n + 32 else n)"

text \<open>The capital whose lower case is the given code point, when there is one.\<close>

definition upper :: "nat \<Rightarrow> nat" where
  "upper n =
     (if (97 \<le> n \<and> n \<le> 122) \<or> (224 \<le> n \<and> n \<le> 246) \<or> (248 \<le> n \<and> n \<le> 254)
      then n - 32 else n)"

text \<open>\<open>\d\<close>: the decimal digits.\<close>

definition is_digit :: "nat \<Rightarrow> bool" where
  "is_digit n = (48 \<le> n \<and> n \<le> 57)"

text \<open>\<open>\s\<close>: the white space of \<open>str.isspace\<close>.\<close>

definition is_space :: "nat \<Rightarrow> bool" where
  "is_space n = ((9 \<le> n \<and> n \<le> 13) \<or> (28 \<le> n \<and> n \<le> 32) \<or> n = 133 \<or> n = 160)"

text \<open>\<open>\w\<close>: alphanumeric characters and the underscore; \<open>\b\<close> is defined from it.\<close>

definition is_word :: "nat \<Rightarrow> bool" where
  "is_word n =
     ((48 \<le> n \<and> n \<le> 57) \<or> (65 \<le> n \<and> n \<le> 90) \<or> n = 95 \<or> (97 \<le> n \<and> n \<le> 122)
      \<or> n = 170 \<or> n = 178 \<or> n = 179 \<or> n = 181 \<or> n = 185 \<or> n = 186
      \<or> (188 \<le> n \<and> n \<le> 190) \<or> (192 \<le> n \<and> n \<le> 214) \<or> (216 \<le> n \<and> n \<le> 246)
      \<or> (248 \<le> n \<and> n \<le> 255))"

section \<open>Regular expressions\<close>

text \<open>
  The patterns of the source use literals, character sets (with ranges and the classes
  \<open>\d\<close> and \<open>\s\<close>), the word boundary \<open>\b\<close>, greedy repetition of a one-character
  set, an optional group and alternation inside a non-capturing group.
  A pattern is a sequence of nodes.
\<close>

datatype item = Chr char | Rng char char | Digit | Space

datatype node =
    Lit char
  | In "item list"
  | Boundary
  | Repeat nat "nat option" "item list"
  | Opt "node list"
  | Branch "node list list"

type_synonym pattern = "node list"

definition lits :: "string \<Rightarrow> pattern" where
  "lits s = map Lit s"

text \<open>
  Matching is always done with \<open>re.IGNORECASE\<close> in the source: a literal matches when
  the lower-cased code points agree; a set holds the lower case of each of its members and
  is asked for the lower case of the character read.
\<close>

definition lit_match :: "char \<Rightarrow> nat \<Rightarrow> bool" where
  "lit_match c x = (lower x = lower (cp c))"

fun item_match :: "item \<Rightarrow> nat \<Rightarrow> bool" where
  "item_match (Chr m) x = lit_match m x"
| "item_match (Rng a b) x =
     ((cp a \<le> lower x \<and> lower x \<le> cp b) \<or>
      (cp a \<le> upper (lower x) \<and> upper (lower x) \<le> cp b))"
| "item_match Digit x = is_digit x"
| "item_match Space x = is_space x"

definition set_match :: "item list \<Rightarrow> nat \<Rightarrow> bool" where
  "set_match items x = list_ex (\<lambda>it. item_match it x) items"

text \<open>
  The matcher reads the text through a cursor: whether the character before the cursor
  is a word character, and the code points from the cursor on.
\<close>

type_synonym cursor = "bool \<times> nat list"

text \<open>\<open>\b\<close>: exactly one side of the cursor is a word character.\<close>

fun bound :: "cursor \<Rightarrow> bool" where
  "bound (w, []) = w"
| "bound (w, x # xs) = (w \<noteq> is_word x)"

text \<open>The cursor moved forward by \<open>n\<close> characters.\<close>

fun skip :: "nat \<Rightarrow> cursor \<Rightarrow> cursor" where
  "skip 0 cur = cur"
| "skip (Suc n) (w, []) = (w, [])"
| "skip (Suc n) (w, x # xs) = skip n (is_word x, xs)"

text \<open>
  The number of characters at the cursor that lie in the set, counted up to the upper
  bound of the repetition (\<open>None\<close>: no bound).
\<close>

fun run :: "item list \<Rightarrow> nat option \<Rightarrow> nat list \<Rightarrow> nat" where
  "run items hi [] = 0"
| "run items hi (x # xs) =
     (if hi = Some 0 \<or> \<not> set_match items x then 0
      else Suc (run items (map_option (\<lambda>h. h - 1) hi) xs))"

text \<open>
  A greedy repetition that can take \<open>n\<close> characters tries \<open>n\<close>, then \<open>n - 1\<close>,
  down to its lower bound \<open>lo\<close>.
\<close>

fun downto :: "nat \<Rightarrow> nat \<Rightarrow> nat list" where
  "downto lo 0 = (if lo = 0 then [0] else [])"
| "downto lo (Suc n) = (if lo \<le> Suc n then Suc n # downto lo n else [])"

text \<open>
  The backtracking matcher: \<open>ends p cur\<close> lists the lengths of the matches of
  \<open>p\<close> that begin at the cursor, in the order in which a backtracking engine finds
  them. The engine reports the first.
\<close>

fun ends :: "pattern \<Rightarrow> cursor \<Rightarrow> nat list" where
  "ends [] cur = [0]"
| "ends (Lit c # ns) (w, []) = []"
| "ends (Lit c # ns) (w, x # xs) =
     (if lit_match c x then map Suc (ends ns (is_word x, xs)) else [])"
| "ends (In items # ns) (w, []) = []"
| "ends (In items # ns) (w, x # xs) =
     (if set_match items x then map Suc (ends ns (is_word x, xs)) else [])"
| "ends (Boundary # ns) cur = (if bound cur then ends ns cur else [])"
| "ends (Repeat lo hi items # ns) cur =
     concat (map (\<lambda>n. map ((+) n) (ends ns (skip n cur)))
                 (downto lo (run items hi (snd cur))))"
| "ends (Opt g # ns) cur =
     concat (map (\<lambda>n. map ((+) n) (ends ns (skip n cur))) (ends g cur @ [0]))"
| "ends (Branch bs # ns) cur =
     concat (map (\<lambda>n. map ((+) n) (ends ns (skip n cur)))
                 (concat (map (\<lambda>b. ends b cur) bs)))"

text \<open>
  Scanning, as \<open>re.finditer\<close> and \<open>re.findall\<close> do: the leftmost match from the
  current position \<open>i\<close> on, then on from its end (one further after an empty match),
  until the end of the text has been tried.
\<close>

function scan :: "pattern \<Rightarrow> nat \<Rightarrow> cursor \<Rightarrow> (nat \<times> nat) list" where
  "scan p i (w, xs) =
     (case ends p (w, xs) of
        [] \<Rightarrow> (if xs = [] then [] else scan p (Suc i) (skip (Suc 0) (w, xs)))
      | n # _ \<Rightarrow>
          (i, i + n) #
          (if xs = [] then []
           else scan p (i + max (Suc 0) n) (skip (max (Suc 0) n) (w, xs))))"
  by pat_completeness auto
termination
proof (relation "measure (\<lambda>(p, i, cur). length (snd cur))")
  have moved: "length (snd (skip n cur)) = length (snd cur) - n" for n cur
    by (induction n cur rule: skip.induct) auto
  show "wf (measure (\<lambda>(p, i, cur). length (snd cur)))"
    by simp
  show "((p, Suc i, skip (Suc 0) (w, xs)), p, i, w, xs)
          \<in> measure (\<lambda>(p, i, cur). length (snd cur))"
    if "xs \<noteq> []" for p i w xs
    using that by (cases xs) auto
  show "((p, i + max (Suc 0) n, skip (max (Suc 0) n) (w, xs)), p, i, w, xs)
          \<in> measure (\<lambda>(p, i, cur). length (snd cur))"
    if "xs \<noteq> []" for p i w xs n
    using that moved [of "max (Suc 0) n" "(w, xs)"] by (cases xs) auto
qed

declare scan.simps [simp del]

record match =
  group :: string
  span :: "nat \<times> nat"

definition finditer :: "pattern \<Rightarrow> string \<Rightarrow> match list" where
  "finditer p s =
     map (\<lambda>(a, b). \<lparr>group = take (b - a) (drop a s), span = (a, b)\<rparr>)
         (scan p 0 (False, map cp s))"

definition findall :: "pattern \<Rightarrow> string \<Rightarrow> string list" where
  "findall p s = map group (finditer p s)"

section \<open>The category catalogue\<close>

text \<open>The German letters of the patterns, as code points; the comments below quote the
  patterns with these letters written as Python escapes (\<open>\xc4\<close> for the code point 0xC4).\<close>

definition AE :: char where "AE = CHR 0xC4"
definition OE :: char where "OE = CHR 0xD6"
definition UE :: char where "UE = CHR 0xDC"
definition ae :: char where "ae = CHR 0xE4"
definition oe :: char where "oe = CHR 0xF6"
definition ue :: char where "ue = CHR 0xFC"
definition sz :: char where "sz = CHR 0xDF"

text \<open>The sets \<open>[A-Z\xc4\xd6\xdc]\<close>, \<open>[a-z\xe4\xf6\xfc\xdf]\<close> and \<open>[a-z\xe4\xf6\xfc\xdf\s]\<close>.\<close>

definition capital :: "item list" where
  "capital = [Rng CHR ''A'' CHR ''Z'', Chr AE, Chr OE, Chr UE]"

definition small :: "item list" where
  "small = [Rng CHR ''a'' CHR ''z'', Chr ae, Chr oe, Chr ue, Chr sz]"

definition small_or_space :: "item list" where
  "small_or_space = [Rng CHR ''a'' CHR ''z'', Chr ae, Chr oe, Chr ue, Chr sz, Space]"

definition plus :: "item list \<Rightarrow> node" where
  "plus items = Repeat 1 None items"

definition optional :: "item list \<Rightarrow> node" where
  "optional items = Repeat 0 (Some 1) items"

definition digits :: "nat \<Rightarrow> nat \<Rightarrow> node" where
  "digits lo hi = Repeat lo (Some hi) [Digit]"

text \<open>\<open>\b[A-Z\xc4\xd6\xdc][a-z\xe4\xf6\xfc\xdf]+\s+[A-Z\xc4\xd6\xdc][a-z\xe4\xf6\xfc\xdf]+\b\<close>\<close>

definition name_first_last :: pattern where
  "name_first_last =
     [Boundary, In capital, plus small, plus [Space], In capital, plus small, Boundary]"

text \<open>\<open>\b(?:Herr|Frau|Dr\.|Prof\.)\s+[A-Z\xc4\xd6\xdc][a-z\xe4\xf6\xfc\xdf]+\<close>\<close>

definition name_title :: pattern where
  "name_title =
     [Boundary, Branch [lits ''Herr'', lits ''Frau'', lits ''Dr.'', lits ''Prof.''],
      plus [Space], In capital, plus small]"

text \<open>\<open>\b[A-Z\xc4\xd6\xdc][a-z\xe4\xf6\xfc\xdf]+(?:-[A-Z\xc4\xd6\xdc][a-z\xe4\xf6\xfc\xdf]+)?\b\<close>\<close>

definition name_hyphenated :: pattern where
  "name_hyphenated =
     [Boundary, In capital, plus small,
      Opt [Lit CHR ''-'', In capital, plus small], Boundary]"

text \<open>\<open>\b\d{1,5}\s+[A-Z\xc4\xd6\xdc][a-z\xe4\xf6\xfc\xdf\s]+(?:stra\xdfe|str\.|platz|weg|allee|gasse)\b\<close>\<close>

definition address_street :: pattern where
  "address_street =
     [Boundary, digits 1 5, plus [Space], In capital, plus small_or_space,
      Branch [lits (''stra'' @ [sz] @ ''e''), lits ''str.'', lits ''platz'', lits ''weg'',
              lits ''allee'', lits ''gasse''],
      Boundary]"

text \<open>\<open>\b\d{5}\s+[A-Z\xc4\xd6\xdc][a-z\xe4\xf6\xfc\xdf\s]+\b\<close>\<close>

definition address_postal :: pattern where
  "address_postal =
     [Boundary, digits 5 5, plus [Space], In capital, plus small_or_space, Boundary]"

text \<open>\<open>\b(?:\+49|0)\s?\d{2,5}[\s\-]?\d{3,8}\b\<close>\<close>

definition phone_national :: pattern where
  "phone_national =
     [Boundary, Branch [lits ''+49'', lits ''0''], optional [Space], digits 2 5,
      optional [Space, Chr CHR ''-''], digits 3 8, Boundary]"

text \<open>\<open>\b\d{3,5}[\s\-]\d{6,8}\b\<close>\<close>

definition phone_grouped :: pattern where
  "phone_grouped =
     [Boundary, digits 3 5, In [Space, Chr CHR ''-''], digits 6 8, Boundary]"

text \<open>\<open>\b[A-Za-z0-9._%+-]+@[A-Za-z0-9.-]+\.[A-Z|a-z]{2,}\b\<close>\<close>

definition email :: pattern where
  "email =
     [Boundary,
      plus [Rng CHR ''A'' CHR ''Z'', Rng CHR ''a'' CHR ''z'', Rng CHR ''0'' CHR ''9'',
            Chr CHR ''.'', Chr CHR ''_'', Chr CHR ''%'', Chr CHR ''+'', Chr CHR ''-''],
      Lit CHR ''@'',
      plus [Rng CHR ''A'' CHR ''Z'', Rng CHR ''a'' CHR ''z'', Rng CHR ''0'' CHR ''9'',
            Chr CHR ''.'', Chr CHR ''-''],
      Lit CHR ''.'',
      Repeat 2 None [Rng CHR ''A'' CHR ''Z'', Chr CHR ''|'', Rng CHR ''a'' CHR ''z''],
      Boundary]"

text \<open>\<open>\b\d{2}\s?\d{2}\s?\d{2}\s?\d{2}\s?[A-Z]\s?\d{3}\b\<close>\<close>

definition id_card :: pattern where
  "id_card =
     [Boundary, digits 2 2, optional [Space], digits 2 2, optional [Space], digits 2 2,
      optional [Space], digits 2 2, optional [Space], In [Rng CHR ''A'' CHR ''Z''],
      optional [Space], digits 3 3, Boundary]"

text \<open>\<open>\b[A-Z]\d{8}\b\<close>\<close>

definition id_passport :: pattern where
  "id_passport = [Boundary, In [Rng CHR ''A'' CHR ''Z''], digits 8 8, Boundary]"

text \<open>\<open>\b\d{1,2}\.\d{1,2}\.\d{4}\b\<close>\<close>

definition date_numeric :: pattern where
  "date_numeric =
     [Boundary, digits 1 2, Lit CHR ''.'', digits 1 2, Lit CHR ''.'', digits 4 4, Boundary]"

text \<open>\<open>\b\d{1,2}\s(?:Januar|Februar|M\xe4rz|April|Mai|Juni|Juli|August|September|Oktober|November|Dezember)\s\d{4}\b\<close>\<close>

definition date_month :: pattern where
  "date_month =
     [Boundary, digits 1 2, In [Space],
      Branch [lits ''Januar'', lits ''Februar'', lits (''M'' @ [ae] @ ''rz''), lits ''April'',
              lits ''Mai'', lits ''Juni'', lits ''Juli'', lits ''August'', lits ''September'',
              lits ''Oktober'', lits ''November'', lits ''Dezember''],
      In [Space], digits 4 4, Boundary]"

text \<open>\<open>\b[A-Z]\d{9}\b\<close>\<close>

definition insurance_number :: pattern where
  "insurance_number = [Boundary, In [Rng CHR ''A'' CHR ''Z''], digits 9 9, Boundary]"

text \<open>\<open>\b\d{2}\s?\d{6}\s?[A-Z]\s?\d{3}\b\<close>\<close>

definition insurance_grouped :: pattern where
  "insurance_grouped =
     [Boundary, digits 2 2, optional [Space], digits 6 6, optional [Space],
      In [Rng CHR ''A'' CHR ''Z''], optional [Space], digits 3 3, Boundary]"

text \<open>
  \<open>self.patterns\<close> of \<open>AnonymizationService\<close>: a dictionary, iterated in the order
  in which it is written, so an association list.
\<close>

definition patterns :: "(string \<times> pattern list) list" where
  "patterns =
     [(''names'', [name_first_last, name_title, name_hyphenated]),
      (''addresses'', [address_street, address_postal]),
      (''phones'', [phone_national, phone_grouped]),
      (''emails'', [email]),
      (''ids'', [id_card, id_passport]),
      (''dates'', [date_numeric, date_month]),
      (''insurance'', [insurance_number, insurance_grouped])]"

section \<open>The redactor\<close>

text \<open>\<open>str(n)\<close> for a natural number.\<close>

function str_nat :: "nat \<Rightarrow> string" where
  "str_nat n =
     (if n < 10 then [''0123456789'' ! n]
      else str_nat (n div 10) @ [''0123456789'' ! (n mod 10)])"
  by pat_completeness auto
termination
  by (relation "measure (\<lambda>n. n)") auto

declare str_nat.simps [simp del]

text \<open>\<open>_generate_replacement\<close>: the placeholder of a category, or the fallback.\<close>

definition generate_replacement :: "string \<Rightarrow> nat \<Rightarrow> string" where
  "generate_replacement pattern_type index =
     (let replacements =
        [(''names'', ''[NAME_'' @ str_nat index @ '']''),
         (''addresses'', ''[ADRESSE_'' @ str_nat index @ '']''),
         (''phones'', ''[TELEFON_'' @ str_nat index @ '']''),
         (''emails'', ''[EMAIL_'' @ str_nat index @ '']''),
         (''ids'', ''[ID_'' @ str_nat index @ '']''),
         (''dates'', ''[DATUM_'' @ str_nat index @ '']''),
         (''insurance'', ''[VERSICHERUNG_'' @ str_nat index @ '']'')]
      in case map_of replacements pattern_type of
           Some r \<Rightarrow> r
         | None \<Rightarrow> ''[ANONYMIZED_'' @ str_nat index @ '']'')"

text \<open>\<open>s.replace(old, new, 1)\<close>: the first occurrence of \<open>old\<close>, if any, is replaced.\<close>

fun replace_first :: "string \<Rightarrow> string \<Rightarrow> string \<Rightarrow> string" where
  "replace_first old new [] = (if old = [] then new else [])"
| "replace_first old new (c # cs) =
     (if prefix old (c # cs) then new @ drop (length old) (c # cs)
      else c # replace_first old new cs)"

text \<open>An entry of the ledger; \<open>pattern_type\<close> is the value under the key \<open>'type'\<close>.\<close>

record entry =
  original :: string
  replacement :: string
  pattern_type :: string
  position :: "nat \<times> nat"

text \<open>
  The three loops of \<open>_anonymize_locally\<close>, innermost first. The state is the working
  text \<open>anonymized\<close> and the ledger \<open>replacements\<close>. \<open>re.finditer\<close> receives the
  working text as it is when the scan of a pattern begins, and keeps that string while
  the loop body rebinds \<open>anonymized\<close>.
\<close>

fun match_loop :: "string \<Rightarrow> match list \<Rightarrow> string \<times> entry list \<Rightarrow> string \<times> entry list" where
  "match_loop ptype [] st = st"
| "match_loop ptype (m # ms) (anonymized, replacements) =
     (let orig = group m;
          repl = generate_replacement ptype (length replacements + 1)
      in match_loop ptype ms
           (replace_first orig repl anonymized,
            replacements @ [\<lparr>original = orig, replacement = repl, pattern_type = ptype,
                             position = span m\<rparr>]))"

fun pattern_loop :: "string \<Rightarrow> pattern list \<Rightarrow> string \<times> entry list \<Rightarrow> string \<times> entry list" where
  "pattern_loop ptype [] st = st"
| "pattern_loop ptype (p # ps) (anonymized, replacements) =
     pattern_loop ptype ps
       (match_loop ptype (finditer p anonymized) (anonymized, replacements))"

fun type_loop :: "(string \<times> pattern list) list \<Rightarrow> string \<times> entry list \<Rightarrow> string \<times> entry list" where
  "type_loop [] st = st"
| "type_loop ((ptype, ps) # rest) st = type_loop rest (pattern_loop ptype ps st)"

record anonymization =
  original_text :: string
  anonymized_text :: string
  replacements :: "entry list"
  replacement_count :: nat
  gdpr_compliant :: bool
  anonymization_method :: string

definition anonymize_locally :: "string \<Rightarrow> anonymization" where
  "anonymize_locally text =
     (case type_loop patterns (text, []) of
        (anonymized, reps) \<Rightarrow>
          \<lparr>original_text = text, anonymized_text = anonymized, replacements = reps,
           replacement_count = length reps, gdpr_compliant = True,
           anonymization_method = ''local_regex_processing''\<rparr>)"

section \<open>The reduced validator\<close>

text \<open>
  \<open>AnonymizationService.validate_anonymization\<close>. Its three patterns are written out
  again in the source; they are the first name pattern, the postal-code pattern and the
  email pattern of the catalogue, character for character.
\<close>

definition suspicious_patterns :: "pattern list" where
  "suspicious_patterns = [name_first_last, address_postal, email]"

record validation =
  is_valid :: bool
  potential_issues :: "string list"
  anonymization_score :: int

fun issues_loop :: "pattern list \<Rightarrow> string \<Rightarrow> string list \<Rightarrow> string list" where
  "issues_loop [] anonymized issues = issues"
| "issues_loop (p # ps) anonymized issues =
     (let matches = findall p anonymized
      in issues_loop ps anonymized (if matches \<noteq> [] then issues @ matches else issues))"

definition validate_anonymization :: "string \<Rightarrow> string \<Rightarrow> validation" where
  "validate_anonymization orig anonymized =
     (let issues = issues_loop suspicious_patterns anonymized []
      in \<lparr>is_valid = (length issues = 0), potential_issues = issues,
          anonymization_score = max 0 (100 - int (length issues) * 10)\<rparr>)"

section \<open>The full validator\<close>

text \<open>\<open>GDPRCompliance.SENSITIVE_PATTERNS\<close>, in the order of the source.\<close>

definition SENSITIVE_PATTERNS :: "(string \<times> pattern) list" where
  "SENSITIVE_PATTERNS =
     [(''german_names'', name_first_last),
      (''addresses'', address_street),
      (''phone_numbers'', phone_national),
      (''email_addresses'', email),
      (''german_ids'', id_card),
      (''insurance_numbers'', insurance_number),
      (''dates'', date_numeric)]"

record issue =
  issue_type :: string
  matches :: "string list"
  severity :: string

record gdpr_validation =
  is_anonymized :: bool
  confidence_score :: int
  issues :: "issue list"
  validation_timestamp :: string

definition severity_of :: "string \<Rightarrow> string" where
  "severity_of pattern_name =
     (if pattern_name \<in> set [''german_names'', ''addresses'', ''phone_numbers'']
      then ''high'' else ''medium'')"

fun sensitive_loop ::
  "(string \<times> pattern) list \<Rightarrow> string \<Rightarrow> issue list \<times> int \<Rightarrow> issue list \<times> int" where
  "sensitive_loop [] text st = st"
| "sensitive_loop ((pattern_name, p) # rest) text (found, confidence) =
     (let ms = findall p text
      in sensitive_loop rest text
           (if ms \<noteq> []
            then (found @ [\<lparr>issue_type = pattern_name, matches = ms,
                              severity = severity_of pattern_name\<rparr>],
                  confidence - int (length ms) * 15)
            else (found, confidence)))"

text \<open>
  \<open>GDPRCompliance.validate_anonymization\<close>; \<open>now_iso\<close> is what
  \<open>datetime.utcnow().isoformat()\<close> returns at the call.
\<close>

definition gdpr_validate_anonymization :: "string \<Rightarrow> string \<Rightarrow> gdpr_validation" where
  "gdpr_validate_anonymization now_iso text =
     (case sensitive_loop SENSITIVE_PATTERNS text ([], 100) of
        (found, confidence) \<Rightarrow>
          \<lparr>is_anonymized = (length found = 0), confidence_score = max 0 confidence,
           issues = found, validation_timestamp = now_iso\<rparr>)"

section \<open>Retention dates and rights requests\<close>

text \<open>
  A \<open>datetime\<close> is a day, numbered as \<open>date.toordinal\<close> does (1 is 0001-01-01,
  \<open>MAXORDINAL\<close> is 9999-12-31), and the microsecond of that day. Adding
  \<open>timedelta(days=n)\<close> moves the day and keeps the time; Python raises
  \<open>OverflowError\<close> when the day leaves the calendar.
\<close>

datatype py_error = OverflowError | UnicodeEncodeError

record datetime =
  ordinal :: int
  microsecond_of_day :: nat

definition MAXORDINAL :: int where
  "MAXORDINAL = 3652059"

definition add_days :: "datetime \<Rightarrow> int \<Rightarrow> py_error + datetime" where
  "add_days d n =
     (if 0 < ordinal d + n \<and> ordinal d + n \<le> MAXORDINAL
      then Inr (d\<lparr>ordinal := ordinal d + n\<rparr>) else Inl OverflowError)"

definition RETENTION_PERIODS :: "(string \<times> int) list" where
  "RETENTION_PERIODS =
     [(''medical_records'', 2555),
      (''audit_logs'', 2190),
      (''ai_interactions'', 1095),
      (''consent_records'', 2555),
      (''anonymized_data'', 3650)]"

text \<open>\<open>d.get(k, default)\<close>\<close>

definition get_default :: "('k \<times> 'v) list \<Rightarrow> 'k \<Rightarrow> 'v \<Rightarrow> 'v" where
  "get_default d k dflt = (case map_of d k of Some v \<Rightarrow> v | None \<Rightarrow> dflt)"

text \<open>
  \<open>calculate_retention_date\<close>; \<open>utcnow\<close> is the reading of the clock, used when no
  creation date is given.
\<close>

definition calculate_retention_date ::
  "datetime \<Rightarrow> string \<Rightarrow> datetime option \<Rightarrow> py_error + datetime" where
  "calculate_retention_date utcnow data_type created_date =
     (let created = (case created_date of None \<Rightarrow> utcnow | Some d \<Rightarrow> d);
          retention_days = get_default RETENTION_PERIODS data_type 2555
      in add_days created retention_days)"

text \<open>
  The request type and the patient id are Python strings of any content: sequences of code
  points, which may be beyond Latin-1 and may be surrogates (a string decoded from JSON can
  hold a lone surrogate). \<open>str s\<close> is the Python string of a literal of the source.
\<close>

type_synonym pystr = "nat list"

definition str :: "string \<Rightarrow> pystr" where
  "str s = map cp s"

text \<open>
  \<open>s.encode()\<close>: the UTF-8 bytes of a string. Python raises \<open>UnicodeEncodeError\<close>
  when the string holds a surrogate (a code point from 0xD800 to 0xDFFF).
\<close>

definition is_surrogate :: "nat \<Rightarrow> bool" where
  "is_surrogate n = (55296 \<le> n \<and> n \<le> 57343)"

definition utf8 :: "nat \<Rightarrow> nat list" where
  "utf8 n =
     (if n < 128 then [n]
      else if n < 2048 then [192 + n div 64, 128 + n mod 64]
      else if n < 65536 then [224 + n div 4096, 128 + n div 64 mod 64, 128 + n mod 64]
      else [240 + n div 262144, 128 + n div 4096 mod 64, 128 + n div 64 mod 64,
            128 + n mod 64])"

definition encode :: "pystr \<Rightarrow> py_error + nat list" where
  "encode s =
     (if list_ex is_surrogate s then Inl UnicodeEncodeError else Inr (concat (map utf8 s)))"

text \<open>
  \<open>validate_data_subject_rights\<close>. The dictionary it returns has one of two shapes.
  The hash function (from bytes to the hexadecimal digest), the ISO formatting of a
  \<open>datetime\<close> and the three readings of the clock come from outside the repository and
  are parameters. The entries of the dictionary are evaluated in the order in which they
  are written: the request id (which encodes the patient id) before the deadline.
\<close>

definition valid_requests :: "(pystr \<times> pystr) list" where
  "valid_requests =
     [(str ''access'', str ''Article 15 - Right of access''),
      (str ''rectification'', str ''Article 16 - Right to rectification''),
      (str ''erasure'', str ''Article 17 - Right to erasure''),
      (str ''restrict_processing'', str ''Article 18 - Right to restriction of processing''),
      (str ''data_portability'', str ''Article 20 - Right to data portability''),
      (str ''object'', str ''Article 21 - Right to object''),
      (str ''withdraw_consent'', str ''Article 7(3) - Right to withdraw consent'')]"

record rejected =
  error :: pystr
  valid_types :: "pystr list"

record accepted =
  request_type :: pystr
  legal_basis :: pystr
  patient_id :: pystr
  request_id :: pystr
  response_deadline :: pystr
  timestamp :: pystr

datatype rights_report = Rejected rejected | Accepted accepted

fun valid :: "rights_report \<Rightarrow> bool" where
  "valid (Rejected r) = False"
| "valid (Accepted a) = True"

record environment =
  sha256_hexdigest :: "nat list \<Rightarrow> string"
  isoformat :: "datetime \<Rightarrow> string"
  utcnow_id :: datetime
  utcnow_deadline :: datetime
  utcnow_stamp :: datetime

definition validate_data_subject_rights ::
  "environment \<Rightarrow> pystr \<Rightarrow> pystr \<Rightarrow> py_error + rights_report" where
  "validate_data_subject_rights env rtype pid =
     (case map_of valid_requests rtype of
        None \<Rightarrow>
          Inr (Rejected \<lparr>error = str ''Invalid request type: '' @ rtype,
                         valid_types = map fst valid_requests\<rparr>)
      | Some basis \<Rightarrow>
          (case encode (rtype @ str ''-'' @ pid @ str ''-'' @
                        str (isoformat env (utcnow_id env))) of
             Inl e \<Rightarrow> Inl e
           | Inr bytes \<Rightarrow>
               (case add_days (utcnow_deadline env) 30 of
                  Inl e \<Rightarrow> Inl e
                | Inr deadline \<Rightarrow>
                    Inr (Accepted
                      \<lparr>request_type = rtype, legal_basis = basis, patient_id = pid,
                       request_id = str (take 16 (sha256_hexdigest env bytes)),
                       response_deadline = str (isoformat env deadline),
                       timestamp = str (isoformat env (utcnow_stamp env))\<rparr>))))"

section \<open>Notions used in the statements\<close>

text \<open>
  The entries that the innermost loop appends for the matches \<open>ms\<close> of one pattern
  when the ledger already holds \<open>n\<close> entries.
\<close>

fun entries_from :: "string \<Rightarrow> nat \<Rightarrow> match list \<Rightarrow> entry list" where
  "entries_from ptype n [] = []"
| "entries_from ptype n (m # ms) =
     \<lparr>original = group m, replacement = generate_replacement ptype (n + 1),
      pattern_type = ptype, position = span m\<rparr> # entries_from ptype (Suc n) ms"

text \<open>A ledger whose \<open>k\<close>-th entry carries the number \<open>k\<close> in its placeholder.\<close>

definition numbered :: "entry list \<Rightarrow> bool" where
  "numbered reps =
     (\<forall>i<length reps.
        replacement (reps ! i) = generate_replacement (pattern_type (reps ! i)) (i + 1))"

text \<open>The rules of a catalogue in the order in which the loops visit them.\<close>

definition rules :: "(string \<times> pattern list) list \<Rightarrow> (string \<times> pattern) list" where
  "rules cat = concat (map (\<lambda>(ptype, ps). map (Pair ptype) ps) cat)"

text \<open>One match lies to the left of another: it begins earlier and ends before it begins.\<close>

definition left_of :: "nat \<times> nat \<Rightarrow> nat \<times> nat \<Rightarrow> bool" where
  "left_of a c = (fst a < fst c \<and> snd a \<le> fst c)"

text \<open>
  The three loops as one loop over the rules of the catalogue; \<open>type_loop_is_rule_loop\<close>
  below shows that it is the same computation.
\<close>

fun rule_loop ::
  "(string \<times> pattern) list \<Rightarrow> string \<times> entry list \<Rightarrow> string \<times> entry list" where
  "rule_loop [] st = st"
| "rule_loop ((ptype, p) # rs) (anonymized, ledger) =
     rule_loop rs (match_loop ptype (finditer p anonymized) (anonymized, ledger))"

text \<open>
  The working text of a run on \<open>text\<close> when the scan of rule number \<open>k\<close> (from 0)
  begins: the value of \<open>anonymized\<close> after the loops have gone through the first
  \<open>k\<close> rules.
\<close>

definition working_text :: "string \<Rightarrow> nat \<Rightarrow> string" where
  "working_text text k = fst (rule_loop (take k (rules patterns)) (text, []))"

text \<open>
  A block \<open>b\<close> of ledger entries is the scan of a rule in the text \<open>t\<close>: every entry
  carries the rule's category, the entries are the matches that \<open>finditer\<close> finds for
  the rule's pattern in \<open>t\<close>, with their literals and positions and in that order, and
  each lies to the left of the next.
\<close>

definition scanned :: "string \<Rightarrow> pattern \<Rightarrow> string \<Rightarrow> entry list \<Rightarrow> bool" where
  "scanned ptype p t b =
     (list_all (\<lambda>e. pattern_type e = ptype) b \<and>
      sorted_wrt (\<lambda>a c. left_of (position a) (position c)) b \<and>
      map original b = map group (finditer p t) \<and>
      map position b = map span (finditer p t))"

text \<open>The findings of the full validator: one for each pattern that matches.\<close>

definition findings :: "(string \<times> pattern) list \<Rightarrow> string \<Rightarrow> issue list" where
  "findings ps text =
     filter (\<lambda>f. matches f \<noteq> [])
       (map (\<lambda>(pattern_name, p).
               \<lparr>issue_type = pattern_name, matches = findall p text,
                severity = severity_of pattern_name\<rparr>) ps)"

text \<open>
  The least length of a match of a pattern: a lower bound on what \<open>ends\<close> returns.
\<close>

fun least :: "nat list \<Rightarrow> nat" where
  "least [] = 0"
| "least [x] = x"
| "least (x # y # ys) = min x (least (y # ys))"

fun min_len :: "pattern \<Rightarrow> nat" where
  "min_len [] = 0"
| "min_len (Lit c # ns) = Suc (min_len ns)"
| "min_len (In items # ns) = Suc (min_len ns)"
| "min_len (Boundary # ns) = min_len ns"
| "min_len (Repeat lo hi items # ns) = lo + min_len ns"
| "min_len (Opt g # ns) = min_len ns"
| "min_len (Branch bs # ns) = least (map min_len bs) + min_len ns"

text \<open>
  The consultation note of the specification's scenario,
  \<open>Konsultation vom 15.12.2023: Patient klagt \xfcber Kopfschmerzen.\<close>
\<close>

definition consultation_note :: string where
  "consultation_note =
     ''Konsultation vom 15.12.2023: Patient klagt '' @ [ue] @ ''ber Kopfschmerzen.''"

text \<open>The specification's scenario for the validators.\<close>

definition patient_line :: string where
  "patient_line = ''Patient: Max Mustermann, Tel: 030-12345678, max@example.com''"

section \<open>Evaluation\<close>

lemmas eval_regex =
  Let_def cp_def lower_def upper_def is_digit_def is_space_def is_word_def lits_def
  lit_match_def set_match_def scan.simps finditer_def findall_def
  AE_def OE_def UE_def ae_def oe_def ue_def sz_def capital_def small_def small_or_space_def
  plus_def optional_def digits_def

lemmas eval_catalogue =
  name_first_last_def name_title_def name_hyphenated_def address_street_def
  address_postal_def phone_national_def phone_grouped_def email_def id_card_def
  id_passport_def date_numeric_def date_month_def insurance_number_def
  insurance_grouped_def patterns_def

lemmas eval_redactor =
  eval_regex eval_catalogue str_nat.simps generate_replacement_def anonymize_locally_def

section \<open>The loops of the redactor\<close>

lemma ledger_eq: "replacements (anonymize_locally text) = snd (type_loop patterns (text, []))"
  by (simp add: anonymize_locally_def split: prod.split)

lemma match_loop_fst_nil: "match_loop pt [] st = st"
  by simp

lemma match_loop_ledger:
  "snd (match_loop pt ms (an, reps)) = reps @ entries_from pt (length reps) ms"
  by (induction ms arbitrary: an reps) (simp_all add: Let_def)

lemma entries_from_Nil: "entries_from pt n ms = [] \<longleftrightarrow> ms = []"
  by (cases ms) simp_all

lemma entries_from_original: "map original (entries_from pt n ms) = map group ms"
  by (induction ms arbitrary: n) simp_all

lemma entries_from_position: "map position (entries_from pt n ms) = map span ms"
  by (induction ms arbitrary: n) simp_all

lemma entries_from_type: "list_all (\<lambda>e. pattern_type e = pt) (entries_from pt n ms)"
  by (induction ms arbitrary: n) simp_all

lemma entries_from_nth:
  "j < length ms \<Longrightarrow>
     replacement (entries_from pt n ms ! j) = generate_replacement pt (n + j + 1) \<and>
     pattern_type (entries_from pt n ms ! j) = pt"
proof (induction ms arbitrary: n j)
  case Nil
  then show ?case by simp
next
  case (Cons m ms)
  then show ?case by (cases j) simp_all
qed

lemma length_entries_from: "length (entries_from pt n ms) = length ms"
  by (induction ms arbitrary: n) simp_all

lemma numbered_entries:
  "numbered reps \<Longrightarrow> numbered (reps @ entries_from pt (length reps) ms)"
  unfolding numbered_def
  by (auto simp: nth_append length_entries_from entries_from_nth)

lemma match_loop_numbered: "numbered (snd st) \<Longrightarrow> numbered (snd (match_loop pt ms st))"
  by (cases st) (simp add: match_loop_ledger numbered_entries)

lemma pattern_loop_numbered: "numbered (snd st) \<Longrightarrow> numbered (snd (pattern_loop pt ps st))"
proof (induction ps arbitrary: st)
  case Nil
  then show ?case by simp
next
  case (Cons p ps)
  obtain an reps where st: "st = (an, reps)" by (cases st)
  show ?case
    using Cons.IH [of "match_loop pt (finditer p an) (an, reps)"] Cons.prems
      match_loop_numbered [of "(an, reps)" pt "finditer p an"]
    by (simp add: st)
qed

lemma type_loop_numbered: "numbered (snd st) \<Longrightarrow> numbered (snd (type_loop cat st))"
proof (induction cat arbitrary: st)
  case Nil
  then show ?case by simp
next
  case (Cons c cat)
  obtain pt ps where c: "c = (pt, ps)" by (cases c)
  show ?case
    using Cons.IH [of "pattern_loop pt ps st"] Cons.prems pattern_loop_numbered [of st pt ps]
    by (simp add: c)
qed

text \<open>
  C1 (as amended). The placeholders of one redaction run are numbered by a single counter
  shared by all categories: the entry at position \<open>i\<close> of the ledger (counting from 0)
  carries the placeholder of its category with the number \<open>i + 1\<close>, whatever the
  categories of the entries before it.
\<close>

theorem placeholder_numbered_by_ledger_position:
  "i < length (replacements (anonymize_locally text)) \<Longrightarrow>
   replacement (replacements (anonymize_locally text) ! i) =
     generate_replacement (pattern_type (replacements (anonymize_locally text) ! i)) (i + 1)"
  using type_loop_numbered [of "(text, [])" patterns]
  by (simp add: ledger_eq numbered_def)

text \<open>The ledger of a text with one name match and one date match.\<close>

lemma redact_name_and_date:
  "anonymize_locally ''ab cd 1.2.2000'' =
     \<lparr>original_text = ''ab cd 1.2.2000'', anonymized_text = ''[NAME_1] [DATUM_2]'',
      replacements =
        [\<lparr>original = ''ab cd'', replacement = ''[NAME_1]'', pattern_type = ''names'',
          position = (0, 5)\<rparr>,
         \<lparr>original = ''1.2.2000'', replacement = ''[DATUM_2]'', pattern_type = ''dates'',
          position = (9, 17)\<rparr>],
      replacement_count = 2, gdpr_compliant = True,
      anonymization_method = ''local_regex_processing''\<rparr>"
  by (simp add: eval_redactor)

text \<open>
  C1 (as stated) fails: in this run the first match of the date category receives the
  number 2, not 1, because one name was matched before it.
\<close>

theorem first_date_match_numbered_two:
  "map pattern_type (replacements (anonymize_locally ''ab cd 1.2.2000'')) =
     [''names'', ''dates''] \<and>
   map replacement (replacements (anonymize_locally ''ab cd 1.2.2000'')) =
     [''[NAME_1]'', ''[DATUM_2]''] \<and>
   generate_replacement ''dates'' 1 = ''[DATUM_1]''"
  by (simp add: redact_name_and_date generate_replacement_def str_nat.simps)

theorem placeholder_numbered_by_ledger_position_witness:
  "1 < length (replacements (anonymize_locally ''ab cd 1.2.2000'')) \<and>
   replacement (replacements (anonymize_locally ''ab cd 1.2.2000'') ! 1) =
     generate_replacement
       (pattern_type (replacements (anonymize_locally ''ab cd 1.2.2000'') ! 1)) (1 + 1)"
proof -
  have "1 < length (replacements (anonymize_locally ''ab cd 1.2.2000''))"
    by (simp add: redact_name_and_date)
  then show ?thesis
    using placeholder_numbered_by_ledger_position [of 1 "''ab cd 1.2.2000''"] by simp
qed

lemma pattern_loop_quiet:
  "\<forall>p\<in>set ps. finditer p an = [] \<Longrightarrow> pattern_loop pt ps (an, reps) = (an, reps)"
  by (induction ps) simp_all

lemma pattern_loop_empty:
  "snd (pattern_loop pt ps (an, reps)) = [] \<longleftrightarrow>
     reps = [] \<and> (\<forall>p\<in>set ps. finditer p an = [])"
proof (induction ps arbitrary: an reps)
  case Nil
  then show ?case by simp
next
  case (Cons p ps)
  obtain an' reps' where ml: "match_loop pt (finditer p an) (an, reps) = (an', reps')"
    by (cases "match_loop pt (finditer p an) (an, reps)")
  have reps': "reps' = reps @ entries_from pt (length reps) (finditer p an)"
    using match_loop_ledger [of pt "finditer p an" an reps] by (simp add: ml)
  show ?case
  proof (cases "finditer p an = []")
    case True
    then show ?thesis using Cons.IH [of an reps] by simp
  next
    case False
    then have "reps' \<noteq> []" by (simp add: reps' entries_from_Nil)
    then show ?thesis using Cons.IH [of an' reps'] False by (simp add: ml)
  qed
qed

lemma type_loop_quiet:
  "\<forall>(pt, ps)\<in>set cat. \<forall>p\<in>set ps. finditer p an = [] \<Longrightarrow>
     type_loop cat (an, reps) = (an, reps)"
  by (induction cat) (auto simp: pattern_loop_quiet)

lemma type_loop_empty:
  "snd (type_loop cat (an, reps)) = [] \<longleftrightarrow>
     reps = [] \<and> (\<forall>(pt, ps)\<in>set cat. \<forall>p\<in>set ps. finditer p an = [])"
proof (induction cat arbitrary: an reps)
  case Nil
  then show ?case by simp
next
  case (Cons c cat)
  obtain pt ps where c: "c = (pt, ps)" by (cases c)
  obtain an' reps' where pl: "pattern_loop pt ps (an, reps) = (an', reps')"
    by (cases "pattern_loop pt ps (an, reps)")
  have e: "reps' = [] \<longleftrightarrow> reps = [] \<and> (\<forall>p\<in>set ps. finditer p an = [])"
    using pattern_loop_empty [of pt ps an reps] by (simp add: pl)
  show ?case
  proof (cases "\<forall>p\<in>set ps. finditer p an = []")
    case True
    then have "pattern_loop pt ps (an, reps) = (an, reps)" by (rule pattern_loop_quiet)
    then show ?thesis using Cons.IH [of an reps] True by (simp add: c)
  next
    case False
    then have "reps' \<noteq> []" using e by simp
    then show ?thesis using Cons.IH [of an' reps'] False by (simp add: c pl)
  qed
qed

text \<open>
  C4. The redactor is a total function, it has no failing branch; its ledger is empty
  exactly when no pattern of the catalogue matches anywhere in the input text.
\<close>

theorem ledger_empty_iff_no_rule_matches:
  "replacements (anonymize_locally text) = [] \<longleftrightarrow>
     (\<forall>(ptype, ps)\<in>set patterns. \<forall>p\<in>set ps. finditer p text = [])"
  by (simp add: ledger_eq type_loop_empty)

lemma quiet_question_mark:
  "\<forall>(ptype, ps)\<in>set patterns. \<forall>p\<in>set ps. finditer p ''?'' = []"
  by (simp add: eval_regex eval_catalogue)

theorem ledger_empty_iff_no_rule_matches_witness:
  "replacements (anonymize_locally ''?'') = []"
  by (rule iffD2 [OF ledger_empty_iff_no_rule_matches quiet_question_mark])

text \<open>
  C10. The record returned by the local redactor always reports \<open>gdpr_compliant\<close> as
  true and the method \<open>local_regex_processing\<close>; its \<open>original_text\<close> is the input
  and its \<open>replacement_count\<close> is the length of the ledger.
\<close>

theorem redactor_record_fields:
  "gdpr_compliant (anonymize_locally text) = True \<and>
   anonymization_method (anonymize_locally text) = ''local_regex_processing'' \<and>
   original_text (anonymize_locally text) = text \<and>
   replacement_count (anonymize_locally text) = length (replacements (anonymize_locally text))"
  by (simp add: anonymize_locally_def split: prod.split)

section \<open>The consultation note\<close>

lemma redact_consultation:
  "anonymize_locally consultation_note =
     \<lparr>original_text = consultation_note,
      anonymized_text = ''[NAME_1] [DATUM_4]: [NAME_2] [NAME_3].'',
      replacements =
        [\<lparr>original = ''Konsultation vom'', replacement = ''[NAME_1]'',
          pattern_type = ''names'', position = (0, 16)\<rparr>,
         \<lparr>original = ''Patient klagt'', replacement = ''[NAME_2]'',
          pattern_type = ''names'', position = (29, 42)\<rparr>,
         \<lparr>original = ue # ''ber Kopfschmerzen'', replacement = ''[NAME_3]'',
          pattern_type = ''names'', position = (43, 61)\<rparr>,
         \<lparr>original = ''15.12.2023'', replacement = ''[DATUM_4]'',
          pattern_type = ''dates'', position = (9, 19)\<rparr>],
      replacement_count = 4, gdpr_compliant = True,
      anonymization_method = ''local_regex_processing''\<rparr>"
  by (simp add: consultation_note_def eval_redactor)

text \<open>
  C2 (as stated) fails: the ledger of the consultation note has four entries, and the
  placeholder \<open>[DATUM_1]\<close> does not occur in the anonymized text.
\<close>

theorem consultation_ledger_has_four_entries:
  "length (replacements (anonymize_locally consultation_note)) = 4 \<and>
   \<not> sublist ''[DATUM_1]'' (anonymized_text (anonymize_locally consultation_note))"
  by (simp add: redact_consultation sublist_Cons_right)

text \<open>
  C2 (as amended). For the consultation note the ledger contains exactly one entry of the
  date category, the match of the literal \<open>15.12.2023\<close>; it is the fourth entry, after
  three entries of the name category, and its placeholder is \<open>[DATUM_4]\<close>. The
  anonymized text has that placeholder in place of the date. No match is recorded for the
  address, phone, email, id and insurance categories.
\<close>

theorem consultation_date_is_fourth_entry:
  "map pattern_type (replacements (anonymize_locally consultation_note)) =
     [''names'', ''names'', ''names'', ''dates''] \<and>
   replacements (anonymize_locally consultation_note) ! 3 =
     \<lparr>original = ''15.12.2023'', replacement = ''[DATUM_4]'', pattern_type = ''dates'',
      position = (9, 19)\<rparr> \<and>
   anonymized_text (anonymize_locally consultation_note) =
     ''[NAME_1] [DATUM_4]: [NAME_2] [NAME_3].''"
  by (simp add: redact_consultation)

section \<open>The order of the ledger\<close>

lemma scan_spans:
  "sorted_wrt left_of (scan p i cur) \<and> (\<forall>a\<in>set (scan p i cur). i \<le> fst a)"
proof (induction p i cur rule: scan.induct)
  case (1 p i w xs)
  show ?case
  proof (cases "ends p (w, xs)")
    case Nil
    show ?thesis
    proof (cases "xs = []")
      case True
      then show ?thesis using Nil by (simp add: scan.simps)
    next
      case False
      have "scan p i (w, xs) = scan p (Suc i) (skip (Suc 0) (w, xs))"
        using Nil False by (subst scan.simps) simp
      then show ?thesis using "1.IH"(1) [OF Nil False] by auto
    qed
  next
    case (Cons n rest)
    show ?thesis
    proof (cases "xs = []")
      case True
      then show ?thesis using Cons by (simp add: scan.simps)
    next
      case False
      let ?tl = "scan p (i + max (Suc 0) n) (skip (max (Suc 0) n) (w, xs))"
      have eq: "scan p i (w, xs) = (i, i + n) # ?tl"
        using Cons False by (subst scan.simps) simp
      have ih: "sorted_wrt left_of ?tl \<and> (\<forall>a\<in>set ?tl. i + max (Suc 0) n \<le> fst a)"
        using "1.IH"(2) [OF Cons False] .
      then have "\<forall>a\<in>set ?tl. left_of (i, i + n) a"
        by (auto simp: left_of_def)
      then show ?thesis using ih by (auto simp: eq)
    qed
  qed
qed

lemma finditer_span: "map span (finditer p t) = scan p 0 (False, map cp t)"
  by (simp add: finditer_def split_def comp_def)

lemma finditer_left_to_right:
  "sorted_wrt (\<lambda>a c. left_of (span a) (span c)) (finditer p t)"
  using scan_spans [of p 0 "(False, map cp t)"]
  by (simp add: finditer_span [symmetric] sorted_wrt_map)

lemma scanned_entries: "scanned pt p t (entries_from pt n (finditer p t))"
proof -
  have "sorted_wrt (\<lambda>a c. left_of (position a) (position c)) (entries_from pt n (finditer p t))"
    using finditer_left_to_right [of p t]
    by (simp add: sorted_wrt_map [symmetric, of _ position] sorted_wrt_map [symmetric, of _ span]
        entries_from_position)
  then show ?thesis
    unfolding scanned_def
    using entries_from_type entries_from_original entries_from_position by blast
qed

lemma rule_loop_append: "rule_loop (rs @ rs') st = rule_loop rs' (rule_loop rs st)"
proof (induction rs arbitrary: st)
  case Nil
  then show ?case by simp
next
  case (Cons r rs)
  obtain pt p where r: "r = (pt, p)" by (cases r)
  obtain an reps where st: "st = (an, reps)" by (cases st)
  show ?case by (simp add: r st Cons.IH)
qed

lemma pattern_loop_is_rule_loop: "pattern_loop pt ps st = rule_loop (map (Pair pt) ps) st"
proof (induction ps arbitrary: st)
  case Nil
  then show ?case by simp
next
  case (Cons p ps)
  obtain an reps where st: "st = (an, reps)" by (cases st)
  show ?case by (simp add: st Cons.IH)
qed

lemma type_loop_is_rule_loop: "type_loop cat st = rule_loop (rules cat) st"
proof (induction cat arbitrary: st)
  case Nil
  then show ?case by (simp add: rules_def)
next
  case (Cons c cat)
  obtain pt ps where c: "c = (pt, ps)" by (cases c)
  have "rules (c # cat) = map (Pair pt) ps @ rules cat"
    by (simp add: rules_def c)
  then show ?case
    by (simp add: c Cons.IH rule_loop_append pattern_loop_is_rule_loop)
qed

lemma rule_loop_blocks:
  "\<exists>bs. snd (rule_loop rs (an, reps)) = reps @ concat bs \<and>
        list_all2 (\<lambda>(k, pt, p) b. scanned pt p (fst (rule_loop (take k rs) (an, reps))) b)
          (enumerate 0 rs) bs"
proof (induction rs arbitrary: an reps)
  case Nil
  then show ?case by simp
next
  case (Cons r rs)
  obtain pt p where r: "r = (pt, p)" by (cases r)
  let ?b = "entries_from pt (length reps) (finditer p an)"
  obtain an' where ml: "match_loop pt (finditer p an) (an, reps) = (an', reps @ ?b)"
    using match_loop_ledger [of pt "finditer p an" an reps]
    by (cases "match_loop pt (finditer p an) (an, reps)") simp
  obtain bs where bs: "snd (rule_loop rs (an', reps @ ?b)) = (reps @ ?b) @ concat bs"
    "list_all2 (\<lambda>(k, pt, p) b. scanned pt p (fst (rule_loop (take k rs) (an', reps @ ?b))) b)
       (enumerate 0 rs) bs"
    using Cons.IH [of an' "reps @ ?b"] by blast
  have "snd (rule_loop (r # rs) (an, reps)) = reps @ concat (?b # bs)"
    by (simp add: r ml bs(1))
  moreover have "list_all2
      (\<lambda>(k, pt, p) b. scanned pt p (fst (rule_loop (take k (r # rs)) (an, reps))) b)
      (enumerate 0 (r # rs)) (?b # bs)"
  proof -
    have "scanned pt p an ?b" by (rule scanned_entries)
    moreover have "list_all2
        (\<lambda>(k, pt, p) b. scanned pt p (fst (rule_loop (take k (r # rs)) (an, reps))) b)
        (enumerate (Suc 0) rs) bs"
      using bs(2) by (simp add: enumerate_Suc_eq list_all2_map1 split_def r ml)
    ultimately show ?thesis by (simp add: r)
  qed
  ultimately show ?case by blast
qed

lemma working_text_start: "working_text text 0 = text"
  by (simp add: working_text_def)

lemma working_text_end:
  "working_text text (length (rules patterns)) = anonymized_text (anonymize_locally text)"
  by (simp add: working_text_def anonymize_locally_def type_loop_is_rule_loop split: prod.split)

text \<open>The ledger of a text in which two rules of the name category match.\<close>

lemma redact_two_rules:
  "anonymize_locally ''ab, cd ef'' =
     \<lparr>original_text = ''ab, cd ef'', anonymized_text = ''[NAME_2], [NAME_1]'',
      replacements =
        [\<lparr>original = ''cd ef'', replacement = ''[NAME_1]'', pattern_type = ''names'',
          position = (4, 9)\<rparr>,
         \<lparr>original = ''ab'', replacement = ''[NAME_2]'', pattern_type = ''names'',
          position = (0, 2)\<rparr>],
      replacement_count = 2, gdpr_compliant = True,
      anonymization_method = ''local_regex_processing''\<rparr>"
  by (simp add: eval_redactor)

text \<open>
  C3 (as stated) fails: both entries of this ledger are of the name category, and the
  second lies to the left of the first (it comes from a later rule of the category).
\<close>

theorem later_rule_matches_further_left:
  "map pattern_type (replacements (anonymize_locally ''ab, cd ef'')) = [''names'', ''names''] \<and>
   map position (replacements (anonymize_locally ''ab, cd ef'')) = [(4, 9), (0, 2)] \<and>
   \<not> left_of (4, 9) (0, 2)"
  by (simp add: redact_two_rules left_of_def)

text \<open>
  C3 (as amended). The ledger of a run is the concatenation of fourteen blocks, one for
  each rule of the catalogue in its fixed order (categories in the order names, addresses,
  phones, emails, ids, dates, insurance, and the rules of a category in the order in which
  they are written). Every entry of the block of rule number \<open>k\<close> carries the category
  of the rule, and the entries of the block are the matches of the rule's pattern in the
  working text as it stood when the scan of that rule began (\<open>working_text text k\<close>),
  with the positions they have in that text, in left-to-right order.
\<close>

theorem ledger_in_catalogue_order:
  "\<exists>blocks. replacements (anonymize_locally text) = concat blocks \<and>
     list_all2 (\<lambda>(k, ptype, p) b. scanned ptype p (working_text text k) b)
       (enumerate 0
         [(''names'', name_first_last), (''names'', name_title), (''names'', name_hyphenated),
          (''addresses'', address_street), (''addresses'', address_postal),
          (''phones'', phone_national), (''phones'', phone_grouped),
          (''emails'', email),
          (''ids'', id_card), (''ids'', id_passport),
          (''dates'', date_numeric), (''dates'', date_month),
          (''insurance'', insurance_number), (''insurance'', insurance_grouped)])
       blocks"
proof -
  have rs: "rules patterns =
     [(''names'', name_first_last), (''names'', name_title), (''names'', name_hyphenated),
      (''addresses'', address_street), (''addresses'', address_postal),
      (''phones'', phone_national), (''phones'', phone_grouped),
      (''emails'', email),
      (''ids'', id_card), (''ids'', id_passport),
      (''dates'', date_numeric), (''dates'', date_month),
      (''insurance'', insurance_number), (''insurance'', insurance_grouped)]"
    by (simp add: rules_def patterns_def)
  obtain bs where bs: "snd (rule_loop (rules patterns) (text, [])) = concat bs"
    "list_all2
       (\<lambda>(k, pt, p) b. scanned pt p (fst (rule_loop (take k (rules patterns)) (text, []))) b)
       (enumerate 0 (rules patterns)) bs"
    using rule_loop_blocks [of "rules patterns" "text" "[]"] by auto
  have "replacements (anonymize_locally text) = concat bs"
    using bs(1) by (simp add: ledger_eq type_loop_is_rule_loop)
  moreover have "list_all2 (\<lambda>(k, ptype, p) b. scanned ptype p (working_text text k) b)
      (enumerate 0 (rules patterns)) bs"
    using bs(2) by (simp add: working_text_def)
  ultimately show ?thesis
    unfolding rs by blast
qed

text \<open>
  The block of a rule is determined by the working text: for the text of the
  counterexample, the first rule of the name category scans the input and the third
  scans the text in which the first match has been replaced.
\<close>

lemma working_text_two_rules:
  "working_text ''ab, cd ef'' 0 = ''ab, cd ef'' \<and>
   working_text ''ab, cd ef'' 2 = ''ab, [NAME_1]'' \<and>
   working_text ''ab, cd ef'' 3 = ''[NAME_2], [NAME_1]''"
  by (simp add: working_text_def rules_def numeral_3_eq_3 numeral_2_eq_2 eval_redactor)

section \<open>The validators\<close>

lemma issues_loop_concat:
  "issues_loop ps t acc = acc @ concat (map (\<lambda>p. findall p t) ps)"
  by (induction ps arbitrary: acc) (simp_all add: Let_def)

text \<open>
  C5. The reduced validator looks at the candidate text only, with the three patterns for
  names, postal-code addresses and emails; its issues are the matched literals of the
  three patterns in one flat list, it is valid exactly when that list is empty, and its
  score is \<open>max(0, 100 - 10 * number of issues)\<close>.
\<close>

theorem reduced_validator_report:
  "validate_anonymization orig candidate =
     \<lparr>is_valid =
        (findall name_first_last candidate @ findall address_postal candidate @
         findall email candidate = []),
      potential_issues =
        findall name_first_last candidate @ findall address_postal candidate @
        findall email candidate,
      anonymization_score =
        max 0 (100 - 10 * int (length (findall name_first_last candidate @
                 findall address_postal candidate @ findall email candidate)))\<rparr>"
  by (simp add: validate_anonymization_def issues_loop_concat suspicious_patterns_def Let_def)

lemma sensitive_loop_findings:
  "sensitive_loop ps t (found, c) =
     (found @ findings ps t, c - 15 * int (length (concat (map matches (findings ps t)))))"
proof (induction ps arbitrary: found c)
  case Nil
  then show ?case by (simp add: findings_def)
next
  case (Cons a ps)
  obtain n p where a: "a = (n, p)" by (cases a)
  show ?case
    by (cases "findall p t = []") (simp_all add: a Cons.IH Let_def findings_def algebra_simps)
qed

lemma gdpr_general:
  "gdpr_validate_anonymization now_iso text =
     \<lparr>is_anonymized = (findings SENSITIVE_PATTERNS text = []),
      confidence_score =
        max 0 (100 - 15 * int (length (concat (map matches (findings SENSITIVE_PATTERNS text))))),
      issues = findings SENSITIVE_PATTERNS text,
      validation_timestamp = now_iso\<rparr>"
  by (simp add: gdpr_validate_anonymization_def sensitive_loop_findings)

text \<open>The findings for the specification's scenario.\<close>

lemma findings_patient:
  "findings SENSITIVE_PATTERNS patient_line =
     [\<lparr>issue_type = ''german_names'', matches = [''Max Mustermann''], severity = ''high''\<rparr>,
      \<lparr>issue_type = ''phone_numbers'', matches = [''030-12345678''], severity = ''high''\<rparr>,
      \<lparr>issue_type = ''email_addresses'', matches = [''max@example.com''],
        severity = ''medium''\<rparr>]"
  by (simp add: patient_line_def findings_def SENSITIVE_PATTERNS_def severity_of_def eval_regex eval_catalogue)

text \<open>
  C6. The full validator runs the seven patterns of \<open>SENSITIVE_PATTERNS\<close> against the
  text and reports one finding for each pattern that matches, with the pattern's name,
  the matched literals and the severity (high for names, addresses and phone numbers,
  medium for the other four); its score is \<open>max(0, 100 - 15 * number of matches)\<close>.
  For the scenario text it reports three findings (name, phone, email) and the score 55.
\<close>

theorem full_validator_report:
  "gdpr_validate_anonymization now_iso text =
     \<lparr>is_anonymized = (findings SENSITIVE_PATTERNS text = []),
      confidence_score =
        max 0 (100 - 15 * int (length (concat (map matches (findings SENSITIVE_PATTERNS text))))),
      issues = findings SENSITIVE_PATTERNS text,
      validation_timestamp = now_iso\<rparr> \<and>
   map fst SENSITIVE_PATTERNS =
     [''german_names'', ''addresses'', ''phone_numbers'', ''email_addresses'', ''german_ids'',
      ''insurance_numbers'', ''dates''] \<and>
   map severity_of (map fst SENSITIVE_PATTERNS) =
     [''high'', ''high'', ''high'', ''medium'', ''medium'', ''medium'', ''medium''] \<and>
   gdpr_validate_anonymization now_iso patient_line =
     \<lparr>is_anonymized = False, confidence_score = 55,
      issues =
        [\<lparr>issue_type = ''german_names'', matches = [''Max Mustermann''],
          severity = ''high''\<rparr>,
         \<lparr>issue_type = ''phone_numbers'', matches = [''030-12345678''],
          severity = ''high''\<rparr>,
         \<lparr>issue_type = ''email_addresses'', matches = [''max@example.com''],
          severity = ''medium''\<rparr>],
      validation_timestamp = now_iso\<rparr>"
proof -
  have "map fst SENSITIVE_PATTERNS =
     [''german_names'', ''addresses'', ''phone_numbers'', ''email_addresses'', ''german_ids'',
      ''insurance_numbers'', ''dates'']"
    by (simp add: SENSITIVE_PATTERNS_def)
  moreover have "map severity_of
     [''german_names'', ''addresses'', ''phone_numbers'', ''email_addresses'', ''german_ids'',
      ''insurance_numbers'', ''dates''] =
     [''high'', ''high'', ''high'', ''medium'', ''medium'', ''medium'', ''medium'']"
    by (simp add: severity_of_def)
  moreover have "gdpr_validate_anonymization now_iso patient_line =
     \<lparr>is_anonymized = False, confidence_score = 55,
      issues =
        [\<lparr>issue_type = ''german_names'', matches = [''Max Mustermann''],
          severity = ''high''\<rparr>,
         \<lparr>issue_type = ''phone_numbers'', matches = [''030-12345678''],
          severity = ''high''\<rparr>,
         \<lparr>issue_type = ''email_addresses'', matches = [''max@example.com''],
          severity = ''medium''\<rparr>],
      validation_timestamp = now_iso\<rparr>"
    by (simp add: gdpr_general findings_patient)
  ultimately show ?thesis
    using gdpr_general [of now_iso "text"] by simp
qed

text \<open>The issues of three small candidate texts.\<close>

lemma issues_three_times:
  "potential_issues (validate_anonymization [] ''ab cd, ab cd, ab cd'') =
     [''ab cd'', ''ab cd'', ''ab cd'']"
  by (simp add: validate_anonymization_def suspicious_patterns_def eval_regex eval_catalogue)

lemma issues_two_names:
  "potential_issues (validate_anonymization [] ''ab cd, ef gh'') = [''ab cd'', ''ef gh'']"
  by (simp add: validate_anonymization_def suspicious_patterns_def eval_regex eval_catalogue)

lemma issues_one_name:
  "potential_issues (validate_anonymization [] ''ab cd'') = [''ab cd'']"
  by (simp add: validate_anonymization_def suspicious_patterns_def eval_regex eval_catalogue)

lemma findings_one_name:
  "findings SENSITIVE_PATTERNS ''ab cd'' =
     [\<lparr>issue_type = ''german_names'', matches = [''ab cd''], severity = ''high''\<rparr>]"
  by (simp add: findings_def SENSITIVE_PATTERNS_def severity_of_def eval_regex eval_catalogue)

lemma findings_two_names:
  "findings SENSITIVE_PATTERNS ''ab cd, ef gh'' =
     [\<lparr>issue_type = ''german_names'', matches = [''ab cd'', ''ef gh''], severity = ''high''\<rparr>]"
  by (simp add: findings_def SENSITIVE_PATTERNS_def severity_of_def eval_regex eval_catalogue)

lemma reduced_score:
  "anonymization_score (validate_anonymization orig candidate) =
     max 0 (100 - 10 * int (length (potential_issues (validate_anonymization orig candidate))))"
  by (simp add: validate_anonymization_def Let_def)

text \<open>
  C7 (as stated) fails: the second text leaks a strict superset of the literals that the
  first text leaks, and its score is higher (80 against 70), because the first text
  leaks the same literal three times.
\<close>

theorem superset_of_literals_scores_higher:
  "set (potential_issues (validate_anonymization [] ''ab cd, ab cd, ab cd'')) \<subset>
     set (potential_issues (validate_anonymization [] ''ab cd, ef gh'')) \<and>
   anonymization_score (validate_anonymization [] ''ab cd, ab cd, ab cd'') = 70 \<and>
   anonymization_score (validate_anonymization [] ''ab cd, ef gh'') = 80"
  by (auto simp: reduced_score issues_three_times issues_two_names)

text \<open>
  C7 (as amended). When the matches that a validator finds in \<open>b\<close>, counted with their
  multiplicity, include the matches it finds in \<open>a\<close>, the score of \<open>b\<close> is at most
  the score of \<open>a\<close>; this holds for the reduced and for the full validator.
\<close>

theorem score_monotone_in_matches:
  "(mset (potential_issues (validate_anonymization oa a)) \<subseteq>#
      mset (potential_issues (validate_anonymization ob b)) \<longrightarrow>
    anonymization_score (validate_anonymization ob b) \<le>
      anonymization_score (validate_anonymization oa a)) \<and>
   (mset (concat (map matches (issues (gdpr_validate_anonymization ta a)))) \<subseteq>#
      mset (concat (map matches (issues (gdpr_validate_anonymization tb b)))) \<longrightarrow>
    confidence_score (gdpr_validate_anonymization tb b) \<le>
      confidence_score (gdpr_validate_anonymization ta a))"
proof (intro conjI impI)
  assume "mset (potential_issues (validate_anonymization oa a)) \<subseteq>#
      mset (potential_issues (validate_anonymization ob b))"
  then have "length (potential_issues (validate_anonymization oa a)) \<le>
      length (potential_issues (validate_anonymization ob b))"
    using size_mset_mono by fastforce
  then show "anonymization_score (validate_anonymization ob b) \<le>
      anonymization_score (validate_anonymization oa a)"
    by (simp add: validate_anonymization_def Let_def)
next
  assume "mset (concat (map matches (issues (gdpr_validate_anonymization ta a)))) \<subseteq>#
      mset (concat (map matches (issues (gdpr_validate_anonymization tb b))))"
  then have "length (concat (map matches (issues (gdpr_validate_anonymization ta a)))) \<le>
      length (concat (map matches (issues (gdpr_validate_anonymization tb b))))"
    using size_mset_mono by fastforce
  then show "confidence_score (gdpr_validate_anonymization tb b) \<le>
      confidence_score (gdpr_validate_anonymization ta a)"
    by (simp add: gdpr_general)
qed

theorem score_monotone_in_matches_witness:
  "anonymization_score (validate_anonymization [] ''ab cd, ef gh'') \<le>
     anonymization_score (validate_anonymization [] ''ab cd'') \<and>
   confidence_score (gdpr_validate_anonymization [] ''ab cd, ef gh'') \<le>
     confidence_score (gdpr_validate_anonymization [] ''ab cd'')"
proof -
  have "mset (potential_issues (validate_anonymization [] ''ab cd'')) \<subseteq>#
      mset (potential_issues (validate_anonymization [] ''ab cd, ef gh''))"
    by (simp add: issues_one_name issues_two_names)
  moreover have "mset (concat (map matches (issues (gdpr_validate_anonymization [] ''ab cd'')))) \<subseteq>#
      mset (concat (map matches (issues (gdpr_validate_anonymization [] ''ab cd, ef gh''))))"
    by (simp add: gdpr_general findings_one_name findings_two_names)
  ultimately show ?thesis
    using score_monotone_in_matches [of "[]" "''ab cd''" "[]" "''ab cd, ef gh''" "[]" "[]"]
    by blast
qed

section \<open>Retention dates and rights requests\<close>

text \<open>
  C8 (as stated) fails: for a creation date on the last day of the calendar the helper
  raises \<open>OverflowError\<close>.
\<close>

theorem retention_date_overflows:
  "calculate_retention_date \<lparr>ordinal = 3652059, microsecond_of_day = 0\<rparr> ''medical_records''
     (Some \<lparr>ordinal = 3652059, microsecond_of_day = 0\<rparr>) = Inl OverflowError"
  by (simp add: calculate_retention_date_def add_days_def get_default_def RETENTION_PERIODS_def
      MAXORDINAL_def)

text \<open>
  C8 (as amended). For every creation date \<open>d\<close> and data type such that \<open>d\<close> plus the
  retention period is a day of the calendar (not after 9999-12-31), the helper returns
  \<open>d\<close> plus that number of days, which is taken from the constant table (medical_records
  2555, audit_logs 2190, ai_interactions 1095, consent_records 2555, anonymized_data 3650)
  and is 2555 for a data type that is not in the table; the lookup raises no error.
\<close>

theorem retention_date_adds_table_days:
  "1 \<le> ordinal d \<Longrightarrow>
   ordinal d + get_default RETENTION_PERIODS data_type 2555 \<le> MAXORDINAL \<Longrightarrow>
   calculate_retention_date utcnow data_type (Some d) =
     Inr (d\<lparr>ordinal := ordinal d + get_default RETENTION_PERIODS data_type 2555\<rparr>) \<and>
   get_default RETENTION_PERIODS data_type 2555 =
     (if data_type = ''medical_records'' then 2555
      else if data_type = ''audit_logs'' then 2190
      else if data_type = ''ai_interactions'' then 1095
      else if data_type = ''consent_records'' then 2555
      else if data_type = ''anonymized_data'' then 3650
      else 2555)"
  by (simp add: calculate_retention_date_def add_days_def get_default_def RETENTION_PERIODS_def)

theorem retention_date_adds_table_days_witness:
  "calculate_retention_date \<lparr>ordinal = 738000, microsecond_of_day = 0\<rparr> ''audit_logs''
     (Some \<lparr>ordinal = 738000, microsecond_of_day = 7\<rparr>) =
     Inr \<lparr>ordinal = 740190, microsecond_of_day = 7\<rparr>"
  using retention_date_adds_table_days
    [of "\<lparr>ordinal = 738000, microsecond_of_day = 7\<rparr>" "''audit_logs''"
        "\<lparr>ordinal = 738000, microsecond_of_day = 0\<rparr>"]
  by (simp add: MAXORDINAL_def get_default_def RETENTION_PERIODS_def)

lemma str_eq_iff: "str a = str b \<longleftrightarrow> a = b"
proof -
  have "inj cp" by (simp add: cp_def inj_def)
  then show ?thesis by (simp add: str_def inj_map_eq_map)
qed

lemma str_no_surrogate: "\<not> list_ex is_surrogate (str s)"
proof -
  have "cp c < 256" for c
    using mod_less_divisor [of 256 "of_char c :: nat"] by (simp add: cp_def)
  then have "\<not> is_surrogate (cp c)" for c
    using less_trans [of "cp c" 256 55296] by (simp add: is_surrogate_def)
  then show ?thesis by (simp add: str_def list_ex_iff)
qed

lemma valid_request_no_surrogate:
  "map_of valid_requests rtype = Some basis \<Longrightarrow> \<not> list_ex is_surrogate rtype"
  using str_no_surrogate
  by (auto simp: valid_requests_def split: if_splits)

text \<open>
  C9 (as stated) fails: the helper raises \<open>UnicodeEncodeError\<close> for the request type
  \<open>erasure\<close> and a patient id that is a lone surrogate, and \<open>OverflowError\<close> when
  the clock reads 9999-12-02.
\<close>

theorem rights_request_raises:
  "validate_data_subject_rights
     \<lparr>sha256_hexdigest = (\<lambda>bytes. ''0123456789abcdef0123456789abcdef''),
      isoformat = (\<lambda>d. ''2023-01-01T00:00:00''),
      utcnow_id = \<lparr>ordinal = 738521, microsecond_of_day = 0\<rparr>,
      utcnow_deadline = \<lparr>ordinal = 738521, microsecond_of_day = 0\<rparr>,
      utcnow_stamp = \<lparr>ordinal = 738521, microsecond_of_day = 0\<rparr>\<rparr> (str ''erasure'') [55296] = Inl UnicodeEncodeError \<and>
   validate_data_subject_rights
     \<lparr>sha256_hexdigest = (\<lambda>bytes. ''0123456789abcdef0123456789abcdef''),
      isoformat = (\<lambda>d. ''2023-01-01T00:00:00''),
      utcnow_id = \<lparr>ordinal = 738521, microsecond_of_day = 0\<rparr>,
      utcnow_deadline = \<lparr>ordinal = 3652030, microsecond_of_day = 0\<rparr>,
      utcnow_stamp = \<lparr>ordinal = 738521, microsecond_of_day = 0\<rparr>\<rparr> (str ''erasure'') (str ''P-1'') = Inl OverflowError"
  by (simp add: validate_data_subject_rights_def valid_requests_def str_eq_iff encode_def
      is_surrogate_def str_no_surrogate add_days_def MAXORDINAL_def)

text \<open>
  C9 (as amended). A request type outside the seven-element enumeration yields the
  structured failure (not valid, an error message, the list of the valid types) and no
  exception, for every patient id. For a request type of the enumeration the helper does
  not raise when the patient id holds no surrogate code point (it is encoded as UTF-8
  for the request id) and the clock is at least thirty days before the end of the
  calendar (the deadline is the clock's reading plus 30 days); under these two conditions
  the request type \<open>erasure\<close> yields a valid report with the legal basis of Article 17.
\<close>

theorem rights_request_report:
  "(rtype \<notin> set [str ''access'', str ''rectification'', str ''erasure'',
                 str ''restrict_processing'', str ''data_portability'', str ''object'',
                 str ''withdraw_consent''] \<longrightarrow>
      validate_data_subject_rights env rtype pid =
        Inr (Rejected
          \<lparr>error = str ''Invalid request type: '' @ rtype,
           valid_types = [str ''access'', str ''rectification'', str ''erasure'',
                 str ''restrict_processing'', str ''data_portability'', str ''object'',
                 str ''withdraw_consent'']\<rparr>) \<and>
      \<not> valid (Rejected
          \<lparr>error = str ''Invalid request type: '' @ rtype,
           valid_types = [str ''access'', str ''rectification'', str ''erasure'',
                 str ''restrict_processing'', str ''data_portability'', str ''object'',
                 str ''withdraw_consent'']\<rparr>)) \<and>
   (\<not> list_ex is_surrogate pid \<and>
    0 < ordinal (utcnow_deadline env) + 30 \<and>
    ordinal (utcnow_deadline env) + 30 \<le> MAXORDINAL \<longrightarrow>
      (\<exists>r. validate_data_subject_rights env rtype pid = Inr r) \<and>
      (\<exists>a. validate_data_subject_rights env (str ''erasure'') pid = Inr (Accepted a) \<and>
           valid (Accepted a) \<and> legal_basis a = str ''Article 17 - Right to erasure''))"
proof (intro conjI impI)
  assume "rtype \<notin> set [str ''access'', str ''rectification'', str ''erasure'',
                 str ''restrict_processing'', str ''data_portability'', str ''object'',
                 str ''withdraw_consent'']"
  then have "map_of valid_requests rtype = None"
    by (simp add: valid_requests_def)
  then show "validate_data_subject_rights env rtype pid =
        Inr (Rejected
          \<lparr>error = str ''Invalid request type: '' @ rtype,
           valid_types = [str ''access'', str ''rectification'', str ''erasure'',
                 str ''restrict_processing'', str ''data_portability'', str ''object'',
                 str ''withdraw_consent'']\<rparr>)"
    by (simp add: validate_data_subject_rights_def) (simp add: valid_requests_def)
next
  show "\<not> valid (Rejected
          \<lparr>error = str ''Invalid request type: '' @ rtype,
           valid_types = [str ''access'', str ''rectification'', str ''erasure'',
                 str ''restrict_processing'', str ''data_portability'', str ''object'',
                 str ''withdraw_consent'']\<rparr>)"
    by simp
next
  assume ok: "\<not> list_ex is_surrogate pid \<and>
    0 < ordinal (utcnow_deadline env) + 30 \<and>
    ordinal (utcnow_deadline env) + 30 \<le> MAXORDINAL"
  show "\<exists>r. validate_data_subject_rights env rtype pid = Inr r"
  proof (cases "map_of valid_requests rtype")
    case None
    then show ?thesis by (simp add: validate_data_subject_rights_def)
  next
    case (Some basis)
    then have "\<not> list_ex is_surrogate rtype" by (rule valid_request_no_surrogate)
    then show ?thesis
      using ok Some
      by (simp add: validate_data_subject_rights_def add_days_def encode_def str_no_surrogate)
  qed
next
  assume ok: "\<not> list_ex is_surrogate pid \<and>
    0 < ordinal (utcnow_deadline env) + 30 \<and>
    ordinal (utcnow_deadline env) + 30 \<le> MAXORDINAL"
  have "map_of valid_requests (str ''erasure'') = Some (str ''Article 17 - Right to erasure'')"
    by (simp add: valid_requests_def str_eq_iff)
  then show "\<exists>a. validate_data_subject_rights env (str ''erasure'') pid = Inr (Accepted a) \<and>
           valid (Accepted a) \<and> legal_basis a = str ''Article 17 - Right to erasure''"
    using ok
    by (simp add: validate_data_subject_rights_def add_days_def encode_def str_no_surrogate)
qed

theorem rights_request_report_witness:
  "validate_data_subject_rights
     \<lparr>sha256_hexdigest = (\<lambda>bytes. ''0123456789abcdef0123456789abcdef''),
      isoformat = (\<lambda>d. ''2023-01-01T00:00:00''),
      utcnow_id = \<lparr>ordinal = 738521, microsecond_of_day = 0\<rparr>,
      utcnow_deadline = \<lparr>ordinal = 738521, microsecond_of_day = 0\<rparr>,
      utcnow_stamp = \<lparr>ordinal = 738521, microsecond_of_day = 0\<rparr>\<rparr> (str ''bogus'') (str ''P-1'') =
     Inr (Rejected
       \<lparr>error = str ''Invalid request type: '' @ str ''bogus'',
        valid_types = [str ''access'', str ''rectification'', str ''erasure'',
                 str ''restrict_processing'', str ''data_portability'', str ''object'',
                 str ''withdraw_consent'']\<rparr>) \<and>
   (\<exists>a. validate_data_subject_rights
     \<lparr>sha256_hexdigest = (\<lambda>bytes. ''0123456789abcdef0123456789abcdef''),
      isoformat = (\<lambda>d. ''2023-01-01T00:00:00''),
      utcnow_id = \<lparr>ordinal = 738521, microsecond_of_day = 0\<rparr>,
      utcnow_deadline = \<lparr>ordinal = 738521, microsecond_of_day = 0\<rparr>,
      utcnow_stamp = \<lparr>ordinal = 738521, microsecond_of_day = 0\<rparr>\<rparr> (str ''erasure'') (str ''P-1'') =
        Inr (Accepted a) \<and> legal_basis a = str ''Article 17 - Right to erasure'')"
  using rights_request_report
    [of "str ''bogus''"
        "\<lparr>sha256_hexdigest = (\<lambda>bytes. ''0123456789abcdef0123456789abcdef''),
      isoformat = (\<lambda>d. ''2023-01-01T00:00:00''),
      utcnow_id = \<lparr>ordinal = 738521, microsecond_of_day = 0\<rparr>,
      utcnow_deadline = \<lparr>ordinal = 738521, microsecond_of_day = 0\<rparr>,
      utcnow_stamp = \<lparr>ordinal = 738521, microsecond_of_day = 0\<rparr>\<rparr>"
        "str ''P-1''"]
  by (simp add: MAXORDINAL_def str_eq_iff str_no_surrogate)

section \<open>The engine on the catalogue\<close>

text \<open>
  A range of a set under \<open>re.IGNORECASE\<close>: the character is accepted when its lower
  case is the lower case of a member of the range.
\<close>

lemma range_ignoring_case:
  "item_match (Rng a b) x \<longleftrightarrow> (\<exists>m. cp a \<le> m \<and> m \<le> cp b \<and> lower m = lower x)"
proof
  assume "item_match (Rng a b) x"
  then consider "cp a \<le> lower x \<and> lower x \<le> cp b"
    | "cp a \<le> upper (lower x) \<and> upper (lower x) \<le> cp b"
    by auto
  then show "\<exists>m. cp a \<le> m \<and> m \<le> cp b \<and> lower m = lower x"
  proof cases
    case 1
    have "lower (lower x) = lower x" by (simp add: lower_def)
    then show ?thesis using 1 by blast
  next
    case 2
    have "lower (upper (lower x)) = lower x" unfolding lower_def upper_def by auto
    then show ?thesis using 2 by blast
  qed
next
  assume "\<exists>m. cp a \<le> m \<and> m \<le> cp b \<and> lower m = lower x"
  then obtain m where m: "cp a \<le> m" "m \<le> cp b" "lower m = lower x" by blast
  then have "m = lower x \<or> m = upper (lower x)"
    by (auto simp: lower_def upper_def split: if_splits)
  then show "item_match (Rng a b) x" using m by auto
qed

lemma least_le: "n \<in> set ns \<Longrightarrow> least ns \<le> n"
  by (induction ns rule: least.induct) auto

lemma downto_ge: "k \<in> set (downto lo n) \<Longrightarrow> lo \<le> k"
  by (induction n) (auto split: if_splits)

lemma in_continue:
  "n \<in> set (concat (map (\<lambda>k. map ((+) k) (f k)) ks)) \<longleftrightarrow>
     (\<exists>k\<in>set ks. \<exists>j\<in>set (f k). n = k + j)"
  by auto

lemma ends_min_len: "n \<in> set (ends p cur) \<Longrightarrow> min_len p \<le> n"
proof (induction p cur arbitrary: n rule: ends.induct)
  case (7 lo hi items ns cur)
  from "7.prems" obtain k j where k: "k \<in> set (downto lo (run items hi (snd cur)))"
    and j: "j \<in> set (ends ns (skip k cur))" and n: "n = k + j"
    by (simp only: ends.simps in_continue) blast
  show ?case using "7.IH" [OF k j] downto_ge [OF k] n by simp
next
  case (8 g ns cur)
  from "8.prems" obtain k j where k: "k \<in> set (ends g cur @ [0])"
    and j: "j \<in> set (ends ns (skip k cur))" and n: "n = k + j"
    by (simp only: ends.simps in_continue) blast
  show ?case using "8.IH"(2) [OF k j] n by simp
next
  case (9 bs ns cur)
  from "9.prems" obtain k j where k: "k \<in> set (concat (map (\<lambda>b. ends b cur) bs))"
    and j: "j \<in> set (ends ns (skip k cur))" and n: "n = k + j"
    by (simp only: ends.simps in_continue) blast
  from k obtain b where b: "b \<in> set bs" and kb: "k \<in> set (ends b cur)"
    by auto
  have "least (map min_len bs) \<le> min_len b" using b by (simp add: least_le)
  then show ?case using "9.IH"(1) [OF b kb] "9.IH"(2) [OF k j] n by simp
qed (auto split: if_splits)

lemma scan_nonempty:
  "0 < min_len p \<Longrightarrow> \<forall>a\<in>set (scan p i cur). fst a < snd a"
proof (induction p i cur rule: scan.induct)
  case (1 p i w xs)
  show ?case
  proof (cases "ends p (w, xs)")
    case Nil
    then show ?thesis using 1 by (subst scan.simps) auto
  next
    case (Cons n rest)
    then have "min_len p \<le> n" using ends_min_len [of n p "(w, xs)"] by simp
    then have "0 < n" using "1.prems" by simp
    then show ?thesis using 1 Cons by (subst scan.simps) auto
  qed
qed

lemma catalogue_min_len:
  "list_all (\<lambda>(ptype, p). 0 < min_len p) (rules patterns)"
  by (simp add: rules_def eval_catalogue plus_def optional_def digits_def lits_def)

text \<open>
  No rule of the catalogue matches the empty string, so every match that a scan reports
  has at least one character, and the scan goes on from the end of the match.
\<close>

lemma catalogue_matches_nonempty:
  assumes "(ptype, p) \<in> set (rules patterns)" and "m \<in> set (finditer p t)"
  shows "fst (span m) < snd (span m)"
proof -
  have "0 < min_len p"
    using catalogue_min_len assms(1) by (auto simp: list_all_iff)
  then have "\<forall>a\<in>set (scan p 0 (False, map cp t)). fst a < snd a"
    by (rule scan_nonempty)
  moreover have "span m \<in> set (scan p 0 (False, map cp t))"
    using assms(2) finditer_span [of p t] by (metis image_eqI set_map)
  ultimately show ?thesis by blast
qed

end
